theory Spec2Isabelle
  imports Main
begin

section \<open>Bytes and the string operations of the C++ standard library\<close>

text \<open>
  A \<open>std::string\<close> is a sequence of bytes, here a \<open>string\<close> (a list of
  \<open>char\<close>, one per byte). Two bytes matter to the protocol: the line feed written
  \<open>\n\<close> in the source and the NUL byte written \<open>\0\<close> or \<open>char(0)\<close>.
\<close>

definition NL :: char where
  "NL = CHR 0x0A"

definition NUL :: char where
  "NUL = CHR 0x00"

text \<open>
  Conversion of a \<open>const char*\<close> to \<open>std::string\<close> (the constructor
  \<open>std::string(buffer)\<close>, and \<open>operator+\<close> and \<open>operator+=\<close> with a string literal
  on the right) copies the bytes before the first NUL. The argument is the array the
  pointer refers to, without the NUL that the compiler or the caller stores after it.
\<close>

definition c_str :: "string \<Rightarrow> string" where
  "c_str bytes = takeWhile (\<lambda>b. b \<noteq> NUL) bytes"

text \<open>\<open>starts_with s needle\<close>: the bytes of \<open>needle\<close> are the first bytes of \<open>s\<close>.\<close>

fun starts_with :: "string \<Rightarrow> string \<Rightarrow> bool" where
  "starts_with s [] = True"
| "starts_with [] (n # ns) = False"
| "starts_with (x # xs) (n # ns) = (x = n \<and> starts_with xs ns)"

text \<open>
  \<open>std::string::find(needle)\<close>: the least position at which \<open>needle\<close> occurs,
  \<open>None\<close> for \<open>std::string::npos\<close>.
\<close>

fun str_find :: "string \<Rightarrow> string \<Rightarrow> nat option" where
  "str_find [] needle = (if needle = [] then Some 0 else None)"
| "str_find (x # xs) needle =
     (if starts_with (x # xs) needle then Some 0
      else map_option Suc (str_find xs needle))"

text \<open>
  \<open>std::string::find(ch, pos)\<close>: the least position from \<open>pos\<close> on that holds the
  byte \<open>ch\<close>.
\<close>

definition find_char :: "string \<Rightarrow> char \<Rightarrow> nat \<Rightarrow> nat option" where
  "find_char s ch pos =
     (if ch \<in> set (drop pos s)
      then Some (pos + length (takeWhile (\<lambda>b. b \<noteq> ch) (drop pos s)))
      else None)"

text \<open>
  \<open>std::string::substr(pos, n)\<close> and \<open>substr(pos)\<close>. Both throw
  \<open>std::out_of_range\<close> when \<open>pos\<close> exceeds the size; every call below passes a
  position that \<open>find\<close> has returned plus the length of the needle found there,
  which lemma \<open>str_find_bound\<close> shows to be within the string.
\<close>

definition substr :: "string \<Rightarrow> nat \<Rightarrow> nat \<Rightarrow> string" where
  "substr s pos n = take n (drop pos s)"

definition substr_from :: "string \<Rightarrow> nat \<Rightarrow> string" where
  "substr_from s pos = drop pos s"

text \<open>\<open>std::to_string\<close> on an unsigned size and on an \<open>int\<close>: decimal digits.\<close>

fun to_string :: "nat \<Rightarrow> string" where
  "to_string n =
     (if n < 10 then [''0123456789'' ! n]
      else to_string (n div 10) @ [''0123456789'' ! (n mod 10)])"

declare to_string.simps [simp del]

definition to_string_int :: "int \<Rightarrow> string" where
  "to_string_int i = (if i < 0 then CHR ''-'' # to_string (nat (- i)) else to_string (nat i))"

section \<open>The client class\<close>

text \<open>
  \<open>producer/main.cpp\<close> and the consumer's \<open>main.cpp\<close> each define a class
  \<open>SimpleStompClient\<close> with the same four fields. The two copies of \<open>connect\<close> and
  \<open>disconnect\<close> differ in the tag of their log lines and in how they end a frame;
  \<open>variant\<close> selects the copy.
\<close>

datatype variant = Producer | Consumer

record client =
  sockfd :: int
  host :: string
  port :: int
  connected :: bool

definition SimpleStompClient :: "string \<Rightarrow> int \<Rightarrow> client" where
  "SimpleStompClient h p = \<lparr>sockfd = - 1, host = h, port = p, connected = False\<rparr>"

definition tag :: "variant \<Rightarrow> string" where
  "tag v = (case v of Producer \<Rightarrow> ''[PRODUCER]'' | Consumer \<Rightarrow> ''[CONSUMER]'')"

subsection \<open>Effects\<close>

text \<open>
  What a call does to the outside world is returned as a list of events, in order:
  the creation of a socket, a \<open>send\<close> of bytes on a descriptor, a \<open>close\<close>, a sleep
  (in milliseconds) and the lines written to \<open>std::cout\<close> and \<open>std::cerr\<close>.
\<close>

datatype event =
    Socket
  | Send int string
  | Close int
  | Sleep_ms nat
  | Cout string
  | Cerr string

text \<open>
  What the operating system answers is an input of the model. A \<open>recv\<close> fails
  (\<open>-1\<close>), reports that the peer has closed (\<open>0\<close>) or delivers the bytes that have
  arrived, of which it copies at most \<open>len\<close> into the buffer.
\<close>

datatype transport_read = Read_error | Peer_closed | Data string

fun recv :: "transport_read \<Rightarrow> nat \<Rightarrow> int \<times> string" where
  "recv Read_error len = (- 1, [])"
| "recv Peer_closed len = (0, [])"
| "recv (Data d) len = (int (length (take len d)), take len d)"

record conn_env =
  socket_ret :: int
  host_found :: bool
  connect_ret :: int
  send_ret :: int
  handshake :: transport_read

subsection \<open>Frames as the source builds them\<close>

definition connectFrame :: "variant \<Rightarrow> string \<Rightarrow> string" where
  "connectFrame v h =
     (case v of
        Producer \<Rightarrow>
          ''CONNECT'' @ [NL] @ ''accept-version:1.0,1.1,1.2'' @ [NL] @
          (''host:'' @ h @ [NL]) @ c_str [NL, NUL]
      | Consumer \<Rightarrow>
          ''CONNECT'' @ [NL] @ ''accept-version:1.0,1.1,1.2'' @ [NL] @
          (''host:'' @ h @ [NL]) @ ''heart-beat:0,0'' @ [NL] @ [NL] @ [NUL])"

definition sendFrame :: "string \<Rightarrow> string \<Rightarrow> string" where
  "sendFrame destination message =
     ''SEND'' @ [NL] @ (''destination:'' @ destination @ [NL]) @
     ''content-type:text/plain'' @ [NL] @
     (''content-length:'' @ to_string (length message) @ [NL]) @
     (([NL] @ message) @ c_str [NUL])"

definition subscribeFrame :: "string \<Rightarrow> string \<Rightarrow> string" where
  "subscribeFrame destination subscription_id =
     ''SUBSCRIBE'' @ [NL] @ (''destination:'' @ destination @ [NL]) @
     (''id:'' @ subscription_id @ [NL]) @ ''ack:auto'' @ [NL] @ [NL] @ [NUL]"

definition disconnectFrame :: "variant \<Rightarrow> string" where
  "disconnectFrame v =
     (case v of
        Producer \<Rightarrow> c_str (''DISCONNECT'' @ [NL, NL, NUL])
      | Consumer \<Rightarrow> (''DISCONNECT'' @ [NL, NL]) @ [NUL])"

subsection \<open>connect\<close>

text \<open>
  \<open>connect\<close> stores the new descriptor, resolves the host, connects, sends the
  CONNECT frame and reads once into \<open>char buffer[1024]\<close> with
  \<open>recv(sockfd, buffer, sizeof(buffer), 0)\<close>. It then writes
  \<open>buffer[bytes_read] = '\0'\<close>: when the read fills the buffer this is a write past
  its end, whose behaviour C++ leaves undefined; the model returns \<open>None\<close> there.
\<close>

definition connect :: "variant \<Rightarrow> client \<Rightarrow> conn_env \<Rightarrow> (bool \<times> client \<times> event list) option" where
  "connect v c env =
     (let c1 = c\<lparr>sockfd := socket_ret env\<rparr>; fd = socket_ret env in
      if fd < 0 then Some (False, c1, [Socket, Cerr ''Error creating socket''])
      else if \<not> host_found env then
        Some (False, c1, [Socket, Cerr (''Error resolving hostname: '' @ host c), Close fd])
      else if connect_ret env < 0 then
        Some (False, c1,
          [Socket,
           Cerr (''Error connecting to ActiveMQ at '' @ host c @ '':'' @ to_string_int (port c)),
           Close fd])
      else if send_ret env < 0 then
        Some (False, c1,
          [Socket, Send fd (connectFrame v (host c)), Cerr ''Error sending CONNECT frame'',
           Close fd])
      else
        (case recv (handshake env) 1024 of (bytes_read, buffer) \<Rightarrow>
           (let failed =
              Some (False, c1,
                [Socket, Send fd (connectFrame v (host c)),
                 Cerr ''Failed to receive CONNECTED frame'', Close fd])
            in
            if bytes_read > 0 then
              (if bytes_read \<ge> 1024 then None
               else if str_find (c_str buffer) ''CONNECTED'' \<noteq> None then
                 Some (True, c1\<lparr>connected := True\<rparr>,
                   [Socket, Send fd (connectFrame v (host c)),
                    Cout (tag v @ '' Successfully connected to ActiveMQ via STOMP'')])
               else failed)
            else failed)))"

subsection \<open>sendMessage (producer) and subscribe (consumer)\<close>

text \<open>The argument \<open>ret\<close> is what \<open>send\<close> returns when it is called.\<close>

definition sendMessage :: "client \<Rightarrow> int \<Rightarrow> string \<Rightarrow> string \<Rightarrow> bool \<times> event list" where
  "sendMessage c ret destination message =
     (if \<not> connected c then (False, [Cerr ''Not connected to broker''])
      else if ret < 0 then
        (False, [Send (sockfd c) (sendFrame destination message), Cerr ''Error sending message''])
      else (True, [Send (sockfd c) (sendFrame destination message)]))"

definition subscribe :: "client \<Rightarrow> int \<Rightarrow> string \<Rightarrow> string \<Rightarrow> bool \<times> event list" where
  "subscribe c ret destination subscription_id =
     (if \<not> connected c then (False, [Cerr ''Not connected to broker''])
      else if ret < 0 then
        (False,
         [Send (sockfd c) (subscribeFrame destination subscription_id),
          Cerr ''Error sending SUBSCRIBE frame''])
      else
        (True,
         [Send (sockfd c) (subscribeFrame destination subscription_id),
          Cout (''[CONSUMER] Successfully subscribed to '' @ destination)]))"

subsection \<open>receiveMessage (consumer)\<close>

text \<open>
  One \<open>recv\<close> of at most 4095 bytes into \<open>char buffer[4096]\<close>, then
  \<open>buffer[bytes_read] = '\0'\<close> and \<open>std::string response(buffer)\<close>: the response is
  the bytes read up to the first NUL among them.
\<close>

definition receiveMessage :: "client \<Rightarrow> transport_read \<Rightarrow> string" where
  "receiveMessage c r =
     (if \<not> connected c then []
      else
        (case recv r 4095 of (bytes_read, buffer) \<Rightarrow>
           if bytes_read > 0 then
             (let response = c_str buffer in
              if str_find response ''MESSAGE'' \<noteq> None then
                (case str_find response [NL, NL] of
                   Some found \<Rightarrow>
                     (let body_start = found + 2 in
                      case find_char response NUL body_start of
                        Some body_end \<Rightarrow> substr response body_start (body_end - body_start)
                      | None \<Rightarrow> substr_from response body_start)
                 | None \<Rightarrow> [])
              else [])
           else []))"

subsection \<open>disconnect\<close>

definition disconnect :: "variant \<Rightarrow> client \<Rightarrow> client \<times> event list" where
  "disconnect v c =
     (if connected c \<and> sockfd c \<ge> 0 then
        (c\<lparr>connected := False\<rparr>,
         [Send (sockfd c) (disconnectFrame v), Close (sockfd c),
          Cout (tag v @ '' Disconnected from ActiveMQ'')])
      else (c, []))"

section \<open>The loops of main\<close>

text \<open>
  Both programs start with the same loop: \<open>retry\<close> runs from 1 to \<open>max_retries\<close>
  (10 in the source, a parameter here), each round calls \<open>connect\<close> and stops at
  the first success; a failed round that is not the last sleeps for three seconds.
  \<open>envs retry\<close> is what the operating system answers in round \<open>retry\<close>. Both
  counters are \<open>int\<close>: \<open>++retry\<close> at the largest \<open>int\<close> overflows, which C++
  leaves undefined (\<open>None\<close>).
\<close>

function retry_loop ::
  "variant \<Rightarrow> int \<Rightarrow> int \<Rightarrow> client \<Rightarrow> (int \<Rightarrow> conn_env) \<Rightarrow> (bool \<times> client \<times> event list) option"
where
  "retry_loop v max_retries retry c envs =
     (if retry \<le> max_retries then
        (case connect v c (envs retry) of
           None \<Rightarrow> None
         | Some (ok, c1, evs) \<Rightarrow>
             (let attempt =
                Cout (tag v @ '' Connection attempt '' @ to_string_int retry @ ''/'' @
                      to_string_int max_retries) # evs
              in
              if ok then Some (True, c1, attempt)
              else
                (let pause =
                   (if retry < max_retries
                    then [Cout (tag v @ '' Retrying in 3 seconds...''), Sleep_ms 3000]
                    else [])
                 in
                 if retry = 2147483647 then None
                 else
                   (case retry_loop v max_retries (retry + 1) c1 envs of
                      None \<Rightarrow> None
                    | Some (ok', c2, evs') \<Rightarrow> Some (ok', c2, attempt @ pause @ evs')))))
      else Some (False, c, []))"
  by pat_completeness auto
termination
  by (relation "measure (\<lambda>(v, max_retries, retry, c, envs). nat (max_retries + 1 - retry))") auto

declare retry_loop.simps [simp del]

text \<open>
  \<open>main\<close> up to the check of \<open>connection_successful\<close>: \<open>Inl 1\<close> is
  \<open>return 1\<close>, \<open>Inr c\<close> the client with which \<open>main\<close> goes on.
\<close>

definition main_connect ::
  "variant \<Rightarrow> int \<Rightarrow> string \<Rightarrow> int \<Rightarrow> (int \<Rightarrow> conn_env) \<Rightarrow> ((int + client) \<times> event list) option"
where
  "main_connect v max_retries broker_host broker_port envs =
     (case retry_loop v max_retries 1 (SimpleStompClient broker_host broker_port) envs of
        None \<Rightarrow> None
      | Some (connection_successful, c, evs) \<Rightarrow>
          if \<not> connection_successful then
            Some (Inl 1,
              evs @ [Cerr (tag v @ '' Failed to connect to ActiveMQ after '' @
                           to_string_int max_retries @ '' attempts'')])
          else Some (Inr c, evs))"

text \<open>
  The consumer's receive loop. Each round calls \<open>receiveMessage\<close>; a non-empty
  result is counted and printed, an empty one is followed by a sleep of 100 ms. The
  list holds, round by round, what \<open>recv\<close> answers in that round; the loop of the
  source blocks in \<open>recv\<close> when nothing arrives, the model stops when the list ends.
  The result is \<open>messages_received\<close> and the messages printed, in order.
\<close>

fun receive_loop :: "client \<Rightarrow> int \<Rightarrow> int \<Rightarrow> transport_read list \<Rightarrow> int \<times> string list" where
  "receive_loop c expected_messages messages_received [] = (messages_received, [])"
| "receive_loop c expected_messages messages_received (r # rs) =
     (if messages_received < expected_messages then
        (let message = receiveMessage c r in
         if message \<noteq> [] then
           (if messages_received + 1 \<ge> expected_messages
            then (messages_received + 1, [message])
            else
              (case receive_loop c expected_messages (messages_received + 1) rs of
                 (n, ms) \<Rightarrow> (n, message # ms)))
         else receive_loop c expected_messages messages_received rs)
      else (messages_received, []))"

section \<open>The wire format of the specification\<close>

text \<open>
  Modelled from the spec: the repository builds CONNECT, SEND, SUBSCRIBE and
  DISCONNECT frames only; the MESSAGE and ERROR frames that the client reads come from
  the broker. Section 6 gives their format: the command and a line feed, one line
  \<open>name:value\<close> per header, an empty line, the body, one NUL byte.
\<close>

record frame =
  command :: string
  headers :: "(string \<times> string) list"
  body :: string

definition header_line :: "string \<times> string \<Rightarrow> string" where
  "header_line h = fst h @ '':'' @ snd h @ [NL]"

definition spec_encode :: "frame \<Rightarrow> string" where
  "spec_encode f =
     command f @ [NL] @ concat (map header_line (headers f)) @ [NL] @ body f @ [NUL]"

text \<open>A command, header name or header value that is one line of text.\<close>

definition text_line :: "string \<Rightarrow> bool" where
  "text_line s = (NL \<notin> set s \<and> NUL \<notin> set s)"

definition plain_head :: "frame \<Rightarrow> bool" where
  "plain_head f =
     (text_line (command f) \<and>
      list_all (\<lambda>h. text_line (fst h) \<and> text_line (snd h)) (headers f))"

text \<open>
  A MESSAGE frame that one \<open>recv\<close> of \<open>receiveMessage\<close> can hold from its
  command to its NUL byte.
\<close>

definition whole_message :: "frame \<Rightarrow> bool" where
  "whole_message f =
     (command f = ''MESSAGE'' \<and> plain_head f \<and> length (spec_encode f) \<le> 4095)"

text \<open>The client of an example: connected, on descriptor 3.\<close>

abbreviation c0 :: client where
  "c0 \<equiv> \<lparr>sockfd = 3, host = ''activemq'', port = 61613, connected = True\<rparr>"

text \<open>
  The rounds of \<open>connect\<close> in a list of events: each call creates one socket, each
  pause is one sleep.
\<close>

definition schedule :: "event list \<Rightarrow> event list" where
  "schedule evs = filter (\<lambda>e. case e of Socket \<Rightarrow> True | Sleep_ms n \<Rightarrow> True | _ \<Rightarrow> False) evs"

fun spaced :: "nat \<Rightarrow> nat \<Rightarrow> event list" where
  "spaced ms 0 = []"
| "spaced ms (Suc 0) = [Socket]"
| "spaced ms (Suc (Suc n)) = Socket # Sleep_ms ms # spaced ms (Suc n)"

definition sends :: "event list \<Rightarrow> event list" where
  "sends evs = filter (\<lambda>e. case e of Send fd bytes \<Rightarrow> True | _ \<Rightarrow> False) evs"

section \<open>Properties of the string operations\<close>

lemma c_str_no_nul: "NUL \<notin> set s \<Longrightarrow> c_str s = s"
  by (induction s) (auto simp: c_str_def)

lemma c_str_cut: "NUL \<notin> set pre \<Longrightarrow> c_str (pre @ NUL # rest) = pre"
  by (induction pre) (auto simp: c_str_def)

lemma c_str_take_cut:
  "NUL \<notin> set pre \<Longrightarrow> length pre < n \<Longrightarrow> c_str (take n (pre @ NUL # rest)) = pre"
proof -
  assume a: "NUL \<notin> set pre" and b: "length pre < n"
  from b obtain k where k: "n = length pre + Suc k"
    by (metis less_iff_Suc_add add_Suc_right)
  have "take n (pre @ NUL # rest) = pre @ NUL # take k rest"
    by (simp add: k)
  with a show ?thesis
    by (simp add: c_str_cut)
qed

lemma nul_free_c_str: "NUL \<notin> set (c_str s)"
proof
  assume "NUL \<in> set (c_str s)"
  then have "NUL \<noteq> NUL"
    unfolding c_str_def by (rule set_takeWhileD [THEN conjunct2])
  then show False by simp
qed

lemma starts_with_append: "starts_with (n @ r) n"
  by (induction n) auto

lemma starts_with_single: "starts_with s [ch] = (s \<noteq> [] \<and> hd s = ch)"
  by (cases s) auto

lemma str_find_prefix: "n \<noteq> [] \<Longrightarrow> str_find (n @ r) n = Some 0"
  by (cases n) (auto simp: starts_with_append)

lemma starts_with_length: "starts_with s n \<Longrightarrow> length n \<le> length s"
  by (induction s n rule: starts_with.induct) auto

lemma str_find_bound: "str_find s n = Some i \<Longrightarrow> i + length n \<le> length s"
proof (induction s arbitrary: i)
  case Nil
  then show ?case by (simp split: if_splits)
next
  case (Cons x xs)
  show ?case
  proof (cases "starts_with (x # xs) n")
    case True
    with Cons.prems have "i = 0" by simp
    with True show ?thesis using starts_with_length by fastforce
  next
    case False
    with Cons.prems obtain j where "str_find xs n = Some j" "i = Suc j"
      by auto
    with Cons.IH show ?thesis by fastforce
  qed
qed

lemma find_char_absent: "ch \<notin> set s \<Longrightarrow> find_char s ch pos = None"
  by (auto simp: find_char_def dest: in_set_dropD)

lemma find_blank_after_line:
  "NL \<notin> set l \<Longrightarrow>
   str_find (l @ NL # rest) [NL, NL] =
     (if starts_with rest [NL] then Some (length l)
      else map_option (\<lambda>i. i + length l + 1) (str_find rest [NL, NL]))"
  by (induction l) (auto simp: option.map_comp comp_def option.map_ident)

lemma find_blank_line:
  "NL \<notin> set l \<Longrightarrow> list_all (\<lambda>h. NL \<notin> set (fst h) \<and> NL \<notin> set (snd h)) hs \<Longrightarrow>
   str_find (l @ NL # concat (map header_line hs) @ NL # rest) [NL, NL] =
     Some (length l + length (concat (map header_line hs)))"
proof (induction hs arbitrary: l)
  case Nil
  then show ?case by (simp add: find_blank_after_line)
next
  case (Cons h hs)
  let ?l' = "fst h @ CHR '':'' # snd h"
  from Cons.prems have l': "NL \<notin> set ?l'"
    by (simp add: NL_def)
  have shape: "concat (map header_line (h # hs)) @ NL # rest =
      ?l' @ NL # concat (map header_line hs) @ NL # rest"
    by (simp add: header_line_def)
  define R where "R = ?l' @ NL # concat (map header_line hs) @ NL # rest"
  have nostart: "\<not> starts_with R [NL]"
    using l' unfolding R_def by (cases "fst h") (auto simp: starts_with_single)
  from Cons.prems have hs: "list_all (\<lambda>h. NL \<notin> set (fst h) \<and> NL \<notin> set (snd h)) hs"
    by simp
  have "str_find (l @ NL # concat (map header_line (h # hs)) @ NL # rest) [NL, NL] =
      str_find (l @ NL # R) [NL, NL]"
    by (simp only: shape R_def)
  also have "\<dots> = map_option (\<lambda>i. i + length l + 1) (str_find R [NL, NL])"
    using nostart find_blank_after_line [OF Cons.prems(1), of R] by simp
  also have "\<dots> = Some (length ?l' + length (concat (map header_line hs)) + length l + 1)"
    unfolding R_def by (simp only: Cons.IH [OF l' hs] option.map)
  also have "\<dots> = Some (length l + length (concat (map header_line (h # hs))))"
    by (simp add: header_line_def)
  finally show ?case .
qed

section \<open>What receiveMessage returns for one read\<close>

lemma c_str_length: "length (c_str s) \<le> length s"
  by (simp add: c_str_def length_takeWhile_le)

lemma c_str_split: "\<exists>rest'. b @ NUL # rest = c_str b @ NUL # rest'"
proof (induction b)
  case Nil
  then show ?case by (simp add: c_str_def)
next
  case (Cons x b)
  then show ?case by (cases "x = NUL") (auto simp: c_str_def)
qed

lemma recv_data_positive: "d \<noteq> [] \<Longrightarrow> 0 < n \<Longrightarrow> 0 < fst (recv (Data d) n)"
  by (cases d) auto

lemma receiveMessage_response:
  assumes conn: "connected c"
    and nonul: "NUL \<notin> set pre"
    and fits: "length pre < 4095"
    and msg: "str_find pre ''MESSAGE'' \<noteq> None"
    and blank: "str_find pre [NL, NL] = Some i"
  shows "receiveMessage c (Data (pre @ NUL # rest)) = drop (i + 2) pre"
proof -
  have resp: "c_str (take 4095 (pre @ NUL # rest)) = pre"
    using nonul fits by (rule c_str_take_cut)
  have pos: "0 < int (length (take 4095 (pre @ NUL # rest)))"
    by simp
  have nochar: "find_char pre NUL pos = None" for pos
    using nonul by (rule find_char_absent)
  show ?thesis
    using conn msg pos
    by (simp add: receiveMessage_def resp blank nochar substr_from_def del: length_take take_append)
qed

lemma header_lines_nul_free:
  "list_all (\<lambda>h. text_line (fst h) \<and> text_line (snd h)) hs \<Longrightarrow>
   NUL \<notin> set (concat (map header_line hs))"
  by (induction hs) (auto simp: header_line_def text_line_def NL_def NUL_def)

lemma plain_head_no_nl:
  "list_all (\<lambda>h. text_line (fst h) \<and> text_line (snd h)) hs \<Longrightarrow>
   list_all (\<lambda>h. NL \<notin> set (fst h) \<and> NL \<notin> set (snd h)) hs"
  by (induction hs) (auto simp: text_line_def)

lemma receiveMessage_frame:
  assumes conn: "connected c"
    and cmd: "command f = ''MESSAGE''"
    and plain: "plain_head f"
    and fits: "length (spec_encode f) \<le> 4095"
  shows "receiveMessage c (Data (spec_encode f @ rest)) = c_str (body f)"
proof -
  let ?hl = "concat (map header_line (headers f))"
  let ?pre = "command f @ NL # ?hl @ NL # c_str (body f)"
  obtain rest' where split: "body f @ NUL # rest = c_str (body f) @ NUL # rest'"
    using c_str_split by blast
  have bytes: "spec_encode f @ rest = ?pre @ NUL # rest'"
    using split by (simp add: spec_encode_def)
  from plain have cmd_ok: "text_line (command f)"
    and hs_ok: "list_all (\<lambda>h. text_line (fst h) \<and> text_line (snd h)) (headers f)"
    by (simp_all add: plain_head_def)
  have nonul: "NUL \<notin> set ?pre"
    using cmd_ok header_lines_nul_free [OF hs_ok] nul_free_c_str [of "body f"]
    by (simp add: text_line_def NL_def NUL_def)
  have len: "length ?pre < 4095"
    using fits c_str_length [of "body f"] by (simp add: spec_encode_def)
  have "?pre = ''MESSAGE'' @ NL # ?hl @ NL # c_str (body f)"
    by (simp add: cmd)
  then have msg: "str_find ?pre ''MESSAGE'' \<noteq> None"
    using str_find_prefix [of "''MESSAGE''" "NL # ?hl @ NL # c_str (body f)"] by simp
  have blank: "str_find ?pre [NL, NL] = Some (length (command f) + length ?hl)"
    using cmd_ok plain_head_no_nl [OF hs_ok] by (intro find_blank_line) (simp_all add: text_line_def)
  have "receiveMessage c (Data (?pre @ NUL # rest')) = drop (length (command f) + length ?hl + 2) ?pre"
    using conn nonul len msg blank by (rule receiveMessage_response)
  also have "\<dots> = c_str (body f)"
    by simp
  finally show ?thesis
    by (simp only: bytes)
qed

lemmas eval_defs =
  receiveMessage_def spec_encode_def header_line_def c_str_def NL_def NUL_def find_char_def
  substr_def substr_from_def

section \<open>The receive loop\<close>

lemma receive_loop_done:
  "expected \<le> n \<Longrightarrow> receive_loop c expected n rs = (n, [])"
  by (cases rs) auto

lemma receive_loop_skip:
  "receiveMessage c r = [] \<Longrightarrow> receive_loop c expected n (r # rs) = receive_loop c expected n rs"
  by (cases "n < expected") (auto simp: receive_loop_done)

lemma receiveMessage_not_connected: "\<not> connected c \<Longrightarrow> receiveMessage c r = []"
  by (simp add: receiveMessage_def)

lemma receiveMessage_no_data:
  "receiveMessage c Read_error = []" "receiveMessage c Peer_closed = []"
  by (simp_all add: receiveMessage_def)

lemma receiveMessage_no_MESSAGE:
  "str_find (c_str (take 4095 d)) ''MESSAGE'' = None \<Longrightarrow> receiveMessage c (Data d) = []"
  by (simp add: receiveMessage_def)

text \<open>
  C1, as amended. \<open>receiveMessage\<close> decodes each read on its own and keeps nothing
  between reads. When every read starts with a whole MESSAGE frame whose body is not
  empty and holds no NUL byte, the loop prints the bodies of these frames in order, one
  per read, and counts them; whatever follows the first frame in a read is dropped.
\<close>

theorem receive_loop_first_frame_of_each_read:
  assumes conn: "connected c"
    and frames: "list_all (\<lambda>r. whole_message (fst r) \<and> body (fst r) \<noteq> [] \<and> NUL \<notin> set (body (fst r))) reads"
    and room: "n + int (length reads) \<le> expected"
  shows "receive_loop c expected n (map (\<lambda>r. Data (spec_encode (fst r) @ snd r)) reads) =
         (n + int (length reads), map (\<lambda>r. body (fst r)) reads)"
  using frames room
proof (induction reads arbitrary: n)
  case Nil
  then show ?case by simp
next
  case (Cons r reads)
  from Cons.prems(1) have whole: "whole_message (fst r)"
    and nonempty: "body (fst r) \<noteq> []" and nonul: "NUL \<notin> set (body (fst r))"
    and others: "list_all (\<lambda>r. whole_message (fst r) \<and> body (fst r) \<noteq> [] \<and> NUL \<notin> set (body (fst r))) reads"
    by simp_all
  from whole conn have "receiveMessage c (Data (spec_encode (fst r) @ snd r)) = c_str (body (fst r))"
    by (intro receiveMessage_frame) (simp_all add: whole_message_def)
  with nonul have msg: "receiveMessage c (Data (spec_encode (fst r) @ snd r)) = body (fst r)"
    by (simp add: c_str_no_nul)
  from Cons.prems(2) have less: "n < expected"
    by simp
  show ?case
  proof (cases "expected \<le> n + 1")
    case True
    with Cons.prems(2) have "int (length (r # reads)) \<le> 1"
      by linarith
    then have "reads = []"
      by simp
    with True less msg nonempty show ?thesis
      by simp
  next
    case False
    from Cons.prems(2) have "n + 1 + int (length reads) \<le> expected"
      by simp
    from Cons.IH [OF others this] False less msg nonempty show ?thesis
      by simp
  qed
qed

text \<open>
  C1, the amended statement at two reads: the first holds a frame followed by another
  frame, which is dropped; the second holds one frame.
\<close>

theorem receive_loop_first_frame_of_each_read_witness:
  "connected c0 \<and>
   list_all (\<lambda>r. whole_message (fst r) \<and> body (fst r) \<noteq> [] \<and> NUL \<notin> set (body (fst r)))
     [(\<lparr>command = ''MESSAGE'', headers = [(''destination'', ''/queue/ProjectQueue'')], body = ''ab''\<rparr>,
       spec_encode \<lparr>command = ''MESSAGE'', headers = [], body = ''lost''\<rparr>),
      (\<lparr>command = ''MESSAGE'', headers = [], body = ''cd''\<rparr>, [])] \<and>
   receive_loop c0 10 0
     [Data (spec_encode \<lparr>command = ''MESSAGE'', headers = [(''destination'', ''/queue/ProjectQueue'')], body = ''ab''\<rparr> @
            spec_encode \<lparr>command = ''MESSAGE'', headers = [], body = ''lost''\<rparr>),
      Data (spec_encode \<lparr>command = ''MESSAGE'', headers = [], body = ''cd''\<rparr>)] = (2, [''ab'', ''cd''])"
proof -
  have conn: "connected c0"
    by simp
  have frames: "list_all (\<lambda>r. whole_message (fst r) \<and> body (fst r) \<noteq> [] \<and> NUL \<notin> set (body (fst r)))
     [(\<lparr>command = ''MESSAGE'', headers = [(''destination'', ''/queue/ProjectQueue'')], body = ''ab''\<rparr>,
       spec_encode \<lparr>command = ''MESSAGE'', headers = [], body = ''lost''\<rparr>),
      (\<lparr>command = ''MESSAGE'', headers = [], body = ''cd''\<rparr>, [])]"
    by (simp add: whole_message_def plain_head_def text_line_def spec_encode_def header_line_def
        NL_def NUL_def)
  have room: "(0::int) + int (length
     [(\<lparr>command = ''MESSAGE'', headers = [(''destination'', ''/queue/ProjectQueue'')], body = ''ab''\<rparr>,
       spec_encode \<lparr>command = ''MESSAGE'', headers = [], body = ''lost''\<rparr>),
      (\<lparr>command = ''MESSAGE'', headers = [], body = ''cd''\<rparr>, [])]) \<le> 10"
    by simp
  show ?thesis
    using conn frames receive_loop_first_frame_of_each_read [OF conn frames room]
    by simp
qed

text \<open>
  C1 as stated fails. Two frames that arrive in two reads are both printed; the same
  bytes in one read yield the first body only, and the same bytes cut after ten bytes
  yield the part of the first body that the first read held.
\<close>

theorem fragmentation_counterexample:
  "snd (receive_loop c0 10 0
     [Data (spec_encode \<lparr>command = ''MESSAGE'', headers = [], body = ''ab''\<rparr>),
      Data (spec_encode \<lparr>command = ''MESSAGE'', headers = [], body = ''cd''\<rparr>)]) = [''ab'', ''cd''] \<and>
   snd (receive_loop c0 10 0
     [Data (spec_encode \<lparr>command = ''MESSAGE'', headers = [], body = ''ab''\<rparr> @
            spec_encode \<lparr>command = ''MESSAGE'', headers = [], body = ''cd''\<rparr>)]) = [''ab''] \<and>
   snd (receive_loop c0 10 0
     [Data (take 10 (spec_encode \<lparr>command = ''MESSAGE'', headers = [], body = ''ab''\<rparr> @
                     spec_encode \<lparr>command = ''MESSAGE'', headers = [], body = ''cd''\<rparr>)),
      Data (drop 10 (spec_encode \<lparr>command = ''MESSAGE'', headers = [], body = ''ab''\<rparr> @
                     spec_encode \<lparr>command = ''MESSAGE'', headers = [], body = ''cd''\<rparr>))]) = [''a'']"
  by (simp add: eval_defs)

section \<open>Encoding and decoding one frame\<close>

text \<open>
  C2, as amended. \<open>receiveMessage\<close> returns a body only, and only for a read in
  which the text MESSAGE occurs. For every MESSAGE frame with a non-empty body that
  holds no NUL byte, whose command and headers hold neither a line feed nor a NUL byte
  and which fits one read, decoding the encoded frame returns the body bytes exactly.
\<close>

theorem message_body_roundtrip:
  assumes "connected c"
    and "whole_message f"
    and "body f \<noteq> []"
    and "NUL \<notin> set (body f)"
  shows "receiveMessage c (Data (spec_encode f)) = body f"
proof -
  from assms(1,2) have "receiveMessage c (Data (spec_encode f @ [])) = c_str (body f)"
    by (intro receiveMessage_frame) (simp_all add: whole_message_def)
  with assms(4) show ?thesis
    by (simp add: c_str_no_nul)
qed

text \<open>C2, the amended statement at a MESSAGE frame with two headers and the body hello.\<close>

theorem message_body_roundtrip_witness:
  "connected c0 \<and>
   whole_message \<lparr>command = ''MESSAGE'',
     headers = [(''destination'', ''/queue/x''), (''content-length'', ''5'')], body = ''hello''\<rparr> \<and>
   ''hello'' \<noteq> [] \<and> NUL \<notin> set ''hello'' \<and>
   receiveMessage c0 (Data (spec_encode \<lparr>command = ''MESSAGE'',
     headers = [(''destination'', ''/queue/x''), (''content-length'', ''5'')], body = ''hello''\<rparr>)) =
   ''hello''"
proof -
  have conn: "connected c0"
    by simp
  have whole: "whole_message \<lparr>command = ''MESSAGE'',
     headers = [(''destination'', ''/queue/x''), (''content-length'', ''5'')], body = ''hello''\<rparr>"
    by (simp add: whole_message_def plain_head_def text_line_def spec_encode_def header_line_def
        NL_def NUL_def)
  have nonempty: "body \<lparr>command = ''MESSAGE'',
     headers = [(''destination'', ''/queue/x''), (''content-length'', ''5'')], body = ''hello''\<rparr> \<noteq> []"
    by simp
  have nonul: "NUL \<notin> set (body \<lparr>command = ''MESSAGE'',
     headers = [(''destination'', ''/queue/x''), (''content-length'', ''5'')], body = ''hello''\<rparr>)"
    by (simp add: NUL_def)
  show ?thesis
    using whole nonul message_body_roundtrip [OF conn whole nonempty nonul]
    by simp
qed

text \<open>
  C2 as stated fails. The frame that the producer encodes for the payload hello has a
  non-empty body, and the consumer's decoder returns the empty string for it, with or
  without a NUL byte after the body.
\<close>

theorem roundtrip_counterexample:
  "receiveMessage c0 (Data (sendFrame ''/queue/x'' ''hello'')) = [] \<and>
   receiveMessage c0 (Data (sendFrame ''/queue/x'' ''hello'' @ [NUL])) = [] \<and>
   receiveMessage c0 (Data (sendFrame ''/queue/x'' ''hello'')) \<noteq> ''hello''"
  by (simp add: eval_defs sendFrame_def to_string.simps)

text \<open>
  The frames that the consumer builds are frames of the wire format: each ends with
  the NUL byte that \<open>char(0)\<close> appends. The frames that the producer builds with
  \<open>"\n\0"\<close> and \<open>"DISCONNECT\n\n\0"\<close> lack that byte.
\<close>

lemma consumer_frames_wire_format:
  "subscribeFrame destination subscription_id =
     spec_encode \<lparr>command = ''SUBSCRIBE'',
       headers = [(''destination'', destination), (''id'', subscription_id), (''ack'', ''auto'')],
       body = []\<rparr>"
  "connectFrame Consumer h =
     spec_encode \<lparr>command = ''CONNECT'',
       headers = [(''accept-version'', ''1.0,1.1,1.2''), (''host'', h), (''heart-beat'', ''0,0'')],
       body = []\<rparr>"
  "disconnectFrame Consumer = spec_encode \<lparr>command = ''DISCONNECT'', headers = [], body = []\<rparr>"
  by (simp_all add: subscribeFrame_def connectFrame_def disconnectFrame_def spec_encode_def
      header_line_def)

lemma producer_frames_lack_terminator:
  "connectFrame Producer h @ [NUL] =
     spec_encode \<lparr>command = ''CONNECT'',
       headers = [(''accept-version'', ''1.0,1.1,1.2''), (''host'', h)], body = []\<rparr>"
  "disconnectFrame Producer @ [NUL] =
     spec_encode \<lparr>command = ''DISCONNECT'', headers = [], body = []\<rparr>"
  by (simp_all add: connectFrame_def disconnectFrame_def spec_encode_def header_line_def
      c_str_def NL_def NUL_def)

text \<open>
  C3. The code does not terminate the frame: \<open>"\n" + message + "\0"\<close> appends the
  string literal \<open>"\0"\<close>, which as a C string is empty. For every destination and
  message the bytes of \<open>sendFrame\<close> are the frame of the specification without its
  NUL byte; for the payload hello the frame holds \<open>content-length:5\<close>, ends with
  the body, and these are the bytes that \<open>sendMessage\<close> hands to \<open>send\<close>.
\<close>

theorem sendFrame_lacks_terminator:
  "spec_encode \<lparr>command = ''SEND'',
     headers = [(''destination'', destination), (''content-type'', ''text/plain''),
                (''content-length'', to_string (length message))],
     body = message\<rparr> = sendFrame destination message @ [NUL] \<and>
   sendFrame ''/queue/x'' ''hello'' =
     ''SEND'' @ [NL] @ ''destination:/queue/x'' @ [NL] @ ''content-type:text/plain'' @ [NL] @
     ''content-length:5'' @ [NL] @ [NL] @ ''hello'' \<and>
   last (sendFrame ''/queue/x'' ''hello'') = CHR ''o'' \<and>
   NUL \<notin> set (sendFrame ''/queue/x'' ''hello'') \<and>
   sendMessage c0 0 ''/queue/x'' ''hello'' = (True, [Send 3 (sendFrame ''/queue/x'' ''hello'')])"
proof -
  have general: "spec_encode \<lparr>command = ''SEND'',
     headers = [(''destination'', destination), (''content-type'', ''text/plain''),
                (''content-length'', to_string (length message))],
     body = message\<rparr> = sendFrame destination message @ [NUL]"
    by (simp add: spec_encode_def header_line_def sendFrame_def c_str_def)
  have hello: "sendFrame ''/queue/x'' ''hello'' =
     ''SEND'' @ [NL] @ ''destination:/queue/x'' @ [NL] @ ''content-type:text/plain'' @ [NL] @
     ''content-length:5'' @ [NL] @ [NL] @ ''hello''"
    by (simp add: sendFrame_def c_str_def to_string.simps)
  have sent: "sendMessage c0 0 ''/queue/x'' ''hello'' = (True, [Send 3 (sendFrame ''/queue/x'' ''hello'')])"
    by (simp add: sendMessage_def)
  show ?thesis
    using general sent by (simp add: hello NL_def NUL_def)
qed

text \<open>
  C4, as amended. The decoder never reads \<open>content-length\<close>. For every MESSAGE frame
  that fits one read, with or without that header, the body returned ends before the
  first NUL byte that follows the empty line; the payload is returned exactly if and
  only if it holds no NUL byte.
\<close>

theorem body_ends_at_first_NUL:
  assumes "connected c"
    and "whole_message f"
  shows "receiveMessage c (Data (spec_encode f)) = takeWhile (\<lambda>b. b \<noteq> NUL) (body f) \<and>
         (receiveMessage c (Data (spec_encode f)) = body f) = (NUL \<notin> set (body f))"
proof -
  from assms have "receiveMessage c (Data (spec_encode f @ [])) = c_str (body f)"
    by (intro receiveMessage_frame) (simp_all add: whole_message_def)
  then have eq: "receiveMessage c (Data (spec_encode f)) = takeWhile (\<lambda>b. b \<noteq> NUL) (body f)"
    by (simp add: c_str_def)
  have "(takeWhile (\<lambda>b. b \<noteq> NUL) (body f) = body f) = (NUL \<notin> set (body f))"
    by (auto simp: takeWhile_eq_all_conv)
  with eq show ?thesis
    by simp
qed

text \<open>
  C4, the amended statement at a frame whose header announces three bytes and whose
  body holds a NUL byte in the middle.
\<close>

theorem body_ends_at_first_NUL_witness:
  "connected c0 \<and>
   whole_message \<lparr>command = ''MESSAGE'', headers = [(''content-length'', ''3'')],
     body = [CHR ''a'', NUL, CHR ''b'']\<rparr> \<and>
   receiveMessage c0 (Data (spec_encode \<lparr>command = ''MESSAGE'',
     headers = [(''content-length'', ''3'')], body = [CHR ''a'', NUL, CHR ''b'']\<rparr>)) = ''a''"
proof -
  have conn: "connected c0"
    by simp
  have whole: "whole_message \<lparr>command = ''MESSAGE'', headers = [(''content-length'', ''3'')],
     body = [CHR ''a'', NUL, CHR ''b'']\<rparr>"
    by (simp add: whole_message_def plain_head_def text_line_def spec_encode_def header_line_def
        NL_def NUL_def)
  show ?thesis
    using whole body_ends_at_first_NUL [OF conn whole]
    by (simp add: NUL_def)
qed

text \<open>
  C4 as stated fails. A frame with \<open>content-length:3\<close> and the three body bytes
  a, NUL, b is decoded to the one byte a.
\<close>

theorem content_length_counterexample:
  "receiveMessage c0 (Data (spec_encode \<lparr>command = ''MESSAGE'',
     headers = [(''content-length'', to_string (length [CHR ''a'', NUL, CHR ''b'']))],
     body = [CHR ''a'', NUL, CHR ''b'']\<rparr>)) = ''a'' \<and>
   receiveMessage c0 (Data (spec_encode \<lparr>command = ''MESSAGE'',
     headers = [(''content-length'', to_string (length [CHR ''a'', NUL, CHR ''b'']))],
     body = [CHR ''a'', NUL, CHR ''b'']\<rparr>)) \<noteq> [CHR ''a'', NUL, CHR ''b'']"
  by (simp add: eval_defs to_string.simps)

section \<open>Reads that are not counted\<close>

text \<open>
  C7, as amended. \<open>receiveMessage\<close> has no error result. For every read in which
  the text MESSAGE does not occur before the first NUL byte (an ERROR frame without
  that text, for one), it returns the empty string, which is also what it returns
  when the read fails; the loop does not count that round.
\<close>

theorem read_without_MESSAGE_not_counted:
  assumes "str_find (c_str (take 4095 d)) ''MESSAGE'' = None"
  shows "receiveMessage c (Data d) = [] \<and>
         receiveMessage c (Data d) = receiveMessage c Read_error \<and>
         receive_loop c expected n (Data d # rs) = receive_loop c expected n rs"
proof -
  from assms have empty: "receiveMessage c (Data d) = []"
    by (rule receiveMessage_no_MESSAGE)
  then have "receive_loop c expected n (Data d # rs) = receive_loop c expected n rs"
    by (rule receive_loop_skip)
  with empty show ?thesis
    by (simp add: receiveMessage_no_data)
qed

text \<open>C7, the amended statement at an ERROR frame, with the counter at 4.\<close>

theorem read_without_MESSAGE_not_counted_witness:
  "str_find (c_str (take 4095 (spec_encode \<lparr>command = ''ERROR'',
      headers = [(''message'', ''unknown destination'')], body = ''no such queue''\<rparr>)))
     ''MESSAGE'' = None \<and>
   receiveMessage c0 (Data (spec_encode \<lparr>command = ''ERROR'',
      headers = [(''message'', ''unknown destination'')], body = ''no such queue''\<rparr>)) = [] \<and>
   receive_loop c0 10 4 [Data (spec_encode \<lparr>command = ''ERROR'',
      headers = [(''message'', ''unknown destination'')], body = ''no such queue''\<rparr>)] = (4, [])"
proof -
  have absent: "str_find (c_str (take 4095 (spec_encode \<lparr>command = ''ERROR'',
      headers = [(''message'', ''unknown destination'')], body = ''no such queue''\<rparr>)))
     ''MESSAGE'' = None"
    by (simp add: spec_encode_def header_line_def c_str_def NL_def NUL_def)
  show ?thesis
    using absent read_without_MESSAGE_not_counted [OF absent, of c0 10 4 "[]"]
    by simp
qed

text \<open>
  C7 as stated fails. An ERROR frame yields the same result as a failed read, so its
  content is not carried and it cannot be told from no message; and an ERROR frame in
  which the text MESSAGE occurs is printed and counted as a delivery.
\<close>

theorem protocol_error_counterexample:
  "receiveMessage c0 (Data (spec_encode \<lparr>command = ''ERROR'',
      headers = [(''message'', ''unknown destination'')], body = ''no such queue''\<rparr>)) =
   receiveMessage c0 Read_error \<and>
   receive_loop c0 10 0 [Data (spec_encode \<lparr>command = ''ERROR'',
      headers = [(''message'', ''malformed MESSAGE'')], body = ''details''\<rparr>)] =
   (1, [''details''])"
  by (simp add: eval_defs)

text \<open>
  C10, as amended. \<open>receiveMessage\<close> returns the empty string when the client is
  not connected, when the read fails or the peer has closed, when the text MESSAGE or
  an empty line does not occur in the read before its first NUL byte, and when a
  whole MESSAGE frame with an empty body arrives. In the receive loop such a frame
  has the effect of a failed read: the round is not counted.
\<close>

theorem empty_message_not_counted:
  "(\<not> connected c \<longrightarrow> receiveMessage c r = []) \<and>
   receiveMessage c Read_error = [] \<and>
   receiveMessage c Peer_closed = [] \<and>
   (str_find (c_str (take 4095 d)) ''MESSAGE'' = None \<longrightarrow> receiveMessage c (Data d) = []) \<and>
   (str_find (c_str (take 4095 d')) [NL, NL] = None \<longrightarrow> receiveMessage c (Data d') = []) \<and>
   (whole_message f \<and> body f = [] \<longrightarrow>
      receiveMessage c (Data (spec_encode f)) = [] \<and>
      receive_loop c expected n (Data (spec_encode f) # rs) =
        receive_loop c expected n (Read_error # rs) \<and>
      receive_loop c expected n (Data (spec_encode f) # rs) = receive_loop c expected n rs)"
proof -
  have blank: "receiveMessage c (Data d') = []"
    if "str_find (c_str (take 4095 d')) [NL, NL] = None"
    using that by (simp add: receiveMessage_def Let_def)
  have frame: "receiveMessage c (Data (spec_encode f)) = []"
    if whole: "whole_message f" and empty: "body f = []"
  proof (cases "connected c")
    case True
    with whole have "receiveMessage c (Data (spec_encode f @ [])) = c_str (body f)"
      by (intro receiveMessage_frame) (simp_all add: whole_message_def)
    with empty show ?thesis
      by (simp add: c_str_def)
  next
    case False
    then show ?thesis
      by (rule receiveMessage_not_connected)
  qed
  have skip: "receive_loop c expected n (Read_error # rs) = receive_loop c expected n rs"
    by (rule receive_loop_skip) (rule receiveMessage_no_data)
  have loop: "receive_loop c expected n (Data (spec_encode f) # rs) = receive_loop c expected n rs"
    if "whole_message f" and "body f = []"
    using frame [OF that] by (rule receive_loop_skip)
  have first: "\<not> connected c \<longrightarrow> receiveMessage c r = []"
    by (simp add: receiveMessage_not_connected)
  have second: "str_find (c_str (take 4095 d)) ''MESSAGE'' = None \<longrightarrow> receiveMessage c (Data d) = []"
    by (simp add: receiveMessage_no_MESSAGE)
  have third: "str_find (c_str (take 4095 d')) [NL, NL] = None \<longrightarrow> receiveMessage c (Data d') = []"
    using blank by blast
  have fourth: "whole_message f \<and> body f = [] \<longrightarrow>
      receiveMessage c (Data (spec_encode f)) = [] \<and>
      receive_loop c expected n (Data (spec_encode f) # rs) =
        receive_loop c expected n (Read_error # rs) \<and>
      receive_loop c expected n (Data (spec_encode f) # rs) = receive_loop c expected n rs"
  proof (intro impI, elim conjE)
    assume whole: "whole_message f" and empty: "body f = []"
    from frame [OF whole empty] loop [OF whole empty] skip
    show "receiveMessage c (Data (spec_encode f)) = [] \<and>
      receive_loop c expected n (Data (spec_encode f) # rs) =
        receive_loop c expected n (Read_error # rs) \<and>
      receive_loop c expected n (Data (spec_encode f) # rs) = receive_loop c expected n rs"
      by (simp del: receive_loop.simps)
  qed
  from first second third fourth show ?thesis
    by (simp only: receiveMessage_no_data simp_thms)
qed

text \<open>
  C10, the amended statement at a client that is not connected, at an ERROR frame, at
  a MESSAGE frame cut before its empty line, and at a MESSAGE frame with an empty body.
\<close>

theorem empty_message_not_counted_witness:
  "\<not> connected (SimpleStompClient ''activemq'' 61613) \<and>
   receiveMessage (SimpleStompClient ''activemq'' 61613)
     (Data (spec_encode \<lparr>command = ''MESSAGE'', headers = [], body = ''ab''\<rparr>)) = [] \<and>
   str_find (c_str (take 4095 (spec_encode \<lparr>command = ''ERROR'', headers = [], body = ''x''\<rparr>)))
     ''MESSAGE'' = None \<and>
   receiveMessage c0 (Data (spec_encode \<lparr>command = ''ERROR'', headers = [], body = ''x''\<rparr>)) = [] \<and>
   str_find (c_str (take 4095 (''MESSAGE'' @ [NL] @ ''destination:/queue/x''))) [NL, NL] = None \<and>
   receiveMessage c0 (Data (''MESSAGE'' @ [NL] @ ''destination:/queue/x'')) = [] \<and>
   whole_message \<lparr>command = ''MESSAGE'', headers = [(''content-length'', ''0'')], body = []\<rparr> \<and>
   receiveMessage c0 (Data (spec_encode
     \<lparr>command = ''MESSAGE'', headers = [(''content-length'', ''0'')], body = []\<rparr>)) = [] \<and>
   receive_loop c0 10 4 [Data (spec_encode
     \<lparr>command = ''MESSAGE'', headers = [(''content-length'', ''0'')], body = []\<rparr>)] =
   receive_loop c0 10 4 [Read_error] \<and>
   receive_loop c0 10 4 [Data (spec_encode
     \<lparr>command = ''MESSAGE'', headers = [(''content-length'', ''0'')], body = []\<rparr>)] = (4, [])"
proof -
  have off: "\<not> connected (SimpleStompClient ''activemq'' 61613)"
    by (simp add: SimpleStompClient_def)
  have absent: "str_find (c_str (take 4095 (spec_encode \<lparr>command = ''ERROR'', headers = [], body = ''x''\<rparr>)))
     ''MESSAGE'' = None"
    by (simp add: spec_encode_def c_str_def NL_def NUL_def)
  have cut: "str_find (c_str (take 4095 (''MESSAGE'' @ [NL] @ ''destination:/queue/x''))) [NL, NL] = None"
    by (simp add: c_str_def NL_def NUL_def)
  have whole: "whole_message \<lparr>command = ''MESSAGE'', headers = [(''content-length'', ''0'')], body = []\<rparr>"
    by (simp add: whole_message_def plain_head_def text_line_def spec_encode_def header_line_def
        NL_def NUL_def)
  have empty: "body \<lparr>command = ''MESSAGE'', headers = [(''content-length'', ''0'')], body = []\<rparr> = []"
    by simp
  note at_off = empty_message_not_counted
      [of "SimpleStompClient ''activemq'' 61613"
          "Data (spec_encode \<lparr>command = ''MESSAGE'', headers = [], body = ''ab''\<rparr>)"]
  note at_c0 = empty_message_not_counted
      [of c0 _ "spec_encode \<lparr>command = ''ERROR'', headers = [], body = ''x''\<rparr>"
          "''MESSAGE'' @ [NL] @ ''destination:/queue/x''"
          "\<lparr>command = ''MESSAGE'', headers = [(''content-length'', ''0'')], body = []\<rparr>" 10 4 "[]"]
  have first: "receiveMessage (SimpleStompClient ''activemq'' 61613)
     (Data (spec_encode \<lparr>command = ''MESSAGE'', headers = [], body = ''ab''\<rparr>)) = []"
    using off at_off by blast
  have second: "receiveMessage c0 (Data (spec_encode \<lparr>command = ''ERROR'', headers = [], body = ''x''\<rparr>)) = []"
    using absent at_c0 by blast
  have third: "receiveMessage c0 (Data (''MESSAGE'' @ [NL] @ ''destination:/queue/x'')) = []"
    using cut at_c0 by blast
  have fourth: "receiveMessage c0 (Data (spec_encode
     \<lparr>command = ''MESSAGE'', headers = [(''content-length'', ''0'')], body = []\<rparr>)) = [] \<and>
   receive_loop c0 10 4 [Data (spec_encode
     \<lparr>command = ''MESSAGE'', headers = [(''content-length'', ''0'')], body = []\<rparr>)] =
   receive_loop c0 10 4 [Read_error] \<and>
   receive_loop c0 10 4 [Data (spec_encode
     \<lparr>command = ''MESSAGE'', headers = [(''content-length'', ''0'')], body = []\<rparr>)] =
   receive_loop c0 10 4 []"
    using whole empty at_c0 by blast
  have stopped: "receive_loop c0 10 4 [] = (4, [])"
    by simp
  from fourth have "receive_loop c0 10 4 [Data (spec_encode
     \<lparr>command = ''MESSAGE'', headers = [(''content-length'', ''0'')], body = []\<rparr>)] =
     receive_loop c0 10 4 []"
    by blast
  also note stopped
  finally have fifth: "receive_loop c0 10 4 [Data (spec_encode
     \<lparr>command = ''MESSAGE'', headers = [(''content-length'', ''0'')], body = []\<rparr>)] = (4, [])" .
  from off absent cut whole first second third fourth fifth show ?thesis
    by blast
qed

text \<open>
  C10 as stated fails where it says that a frame other than MESSAGE yields the empty
  string: an ERROR frame in whose body the text MESSAGE occurs yields its body, and
  the loop counts it.
\<close>

theorem non_MESSAGE_frame_counterexample:
  "receiveMessage c0 (Data (spec_encode \<lparr>command = ''ERROR'', headers = [],
      body = ''MESSAGE too large''\<rparr>)) = ''MESSAGE too large'' \<and>
   receive_loop c0 10 4 [Data (spec_encode \<lparr>command = ''ERROR'', headers = [],
      body = ''MESSAGE too large''\<rparr>)] = (5, [''MESSAGE too large''])"
  by (simp add: eval_defs)

section \<open>Operations outside the connected state\<close>

text \<open>
  C8. On a client that is not connected, \<open>sendMessage\<close> and \<open>subscribe\<close> return
  \<open>false\<close> after the one line \<open>Not connected to broker\<close> on \<open>std::cerr\<close>; no
  \<open>send\<close> takes place, and neither function assigns a field of the client.
\<close>

theorem not_connected_no_write:
  assumes "\<not> connected c"
  shows "sendMessage c ret destination message = (False, [Cerr ''Not connected to broker'']) \<and>
         subscribe c ret' destination' subscription_id = (False, [Cerr ''Not connected to broker'']) \<and>
         sends (snd (sendMessage c ret destination message)) = [] \<and>
         sends (snd (subscribe c ret' destination' subscription_id)) = []"
  using assms by (simp add: sendMessage_def subscribe_def sends_def)

text \<open>C8 at the client that the constructor returns.\<close>

theorem not_connected_no_write_witness:
  "\<not> connected (SimpleStompClient ''activemq'' 61613) \<and>
   sendMessage (SimpleStompClient ''activemq'' 61613) 0 ''/queue/ProjectQueue'' ''hello'' =
     (False, [Cerr ''Not connected to broker'']) \<and>
   subscribe (SimpleStompClient ''activemq'' 61613) 0 ''/queue/ProjectQueue'' ''sub-1'' =
     (False, [Cerr ''Not connected to broker'']) \<and>
   sends (snd (sendMessage (SimpleStompClient ''activemq'' 61613) 0 ''/queue/ProjectQueue'' ''hello'')) = [] \<and>
   sends (snd (subscribe (SimpleStompClient ''activemq'' 61613) 0 ''/queue/ProjectQueue'' ''sub-1'')) = []"
proof -
  have off: "\<not> connected (SimpleStompClient ''activemq'' 61613)"
    by (simp add: SimpleStompClient_def)
  from off not_connected_no_write [OF off, of 0 "''/queue/ProjectQueue''" "''hello''" 0
      "''/queue/ProjectQueue''" "''sub-1''"]
  show ?thesis
    by blast
qed

text \<open>
  C9. After one call of \<open>disconnect\<close>, in either program and from any state of the
  client, a second call changes no field and has no effect: nothing is sent, closed
  or printed.
\<close>

theorem disconnect_twice:
  "disconnect v (fst (disconnect v c)) = (fst (disconnect v c), [])"
  by (simp add: disconnect_def)

section \<open>The handshake\<close>

lemma recv_short: "length d < n \<Longrightarrow> recv (Data d) n = (int (length d), d)"
  by simp

text \<open>
  C6, as amended. Once the CONNECT frame is sent, \<open>connect\<close> reads once and looks
  for the text CONNECTED in what it has read, up to the first NUL byte. Provided the
  read does not fill the buffer of 1024 bytes, \<open>connect\<close> returns \<open>true\<close> and sets
  \<open>connected\<close> if and only if that text occurs; otherwise it returns \<open>false\<close> and
  leaves \<open>connected\<close> as it was, which is \<open>false\<close> for a client that has never
  been connected.
\<close>

theorem connect_handshake:
  assumes "0 \<le> socket_ret env" and "host_found env" and "0 \<le> connect_ret env"
    and "0 \<le> send_ret env"
    and "case handshake env of Data d \<Rightarrow> length d < 1024 | _ \<Rightarrow> True"
  shows "\<exists>c' evs.
           connect v c env =
             Some (case handshake env of
                     Data d \<Rightarrow> str_find (c_str d) ''CONNECTED'' \<noteq> None | _ \<Rightarrow> False,
                   c', evs) \<and>
           connected c' =
             ((case handshake env of
                 Data d \<Rightarrow> str_find (c_str d) ''CONNECTED'' \<noteq> None | _ \<Rightarrow> False) \<or>
              connected c) \<and>
           sends evs = [Send (socket_ret env) (connectFrame v (host c))]"
proof (cases "handshake env")
  case Read_error
  with assms show ?thesis
    by (simp add: connect_def sends_def Let_def)
next
  case Peer_closed
  with assms show ?thesis
    by (simp add: connect_def sends_def Let_def)
next
  case (Data d)
  with assms(5) have short: "length d < 1024"
    by simp
  show ?thesis
  proof (cases "d = []")
    case True
    with assms Data show ?thesis
      by (simp add: connect_def sends_def Let_def c_str_def)
  next
    case False
    then have "0 < length d"
      by simp
    with assms(1-4) Data short show ?thesis
      by (simp add: connect_def sends_def Let_def)
  qed
qed

text \<open>
  C6, the amended statement at a CONNECTED frame, after which the client is
  connected, and at an ERROR frame, after which it is not.
\<close>

theorem connect_handshake_witness:
  "(\<exists>c' evs.
      connect Consumer (SimpleStompClient ''activemq'' 61613)
        \<lparr>socket_ret = 3, host_found = True, connect_ret = 0, send_ret = 73,
         handshake = Data (spec_encode
           \<lparr>command = ''CONNECTED'', headers = [(''version'', ''1.2'')], body = []\<rparr>)\<rparr> =
        Some (True, c', evs) \<and> connected c') \<and>
   (\<exists>c' evs.
      connect Consumer (SimpleStompClient ''activemq'' 61613)
        \<lparr>socket_ret = 3, host_found = True, connect_ret = 0, send_ret = 73,
         handshake = Data (spec_encode
           \<lparr>command = ''ERROR'', headers = [(''message'', ''bad version'')], body = []\<rparr>)\<rparr> =
        Some (False, c', evs) \<and> \<not> connected c')"
proof -
  have short: "length (spec_encode
      \<lparr>command = ''CONNECTED'', headers = [(''version'', ''1.2'')], body = []\<rparr>) < 1024"
    "length (spec_encode
      \<lparr>command = ''ERROR'', headers = [(''message'', ''bad version'')], body = []\<rparr>) < 1024"
    by (simp_all add: spec_encode_def header_line_def)
  have found: "str_find (c_str (spec_encode
      \<lparr>command = ''CONNECTED'', headers = [(''version'', ''1.2'')], body = []\<rparr>)) ''CONNECTED'' \<noteq> None"
    by (simp add: spec_encode_def header_line_def c_str_def NL_def NUL_def)
  have absent: "str_find (c_str (spec_encode
      \<lparr>command = ''ERROR'', headers = [(''message'', ''bad version'')], body = []\<rparr>)) ''CONNECTED'' = None"
    by (simp add: spec_encode_def header_line_def c_str_def NL_def NUL_def)
  have off: "\<not> connected (SimpleStompClient ''activemq'' 61613)"
    by (simp add: SimpleStompClient_def)
  from short(1) found off
    connect_handshake [of "\<lparr>socket_ret = 3, host_found = True, connect_ret = 0, send_ret = 73,
         handshake = Data (spec_encode
           \<lparr>command = ''CONNECTED'', headers = [(''version'', ''1.2'')], body = []\<rparr>)\<rparr>"
       Consumer "SimpleStompClient ''activemq'' 61613"]
  have first: "\<exists>c' evs.
      connect Consumer (SimpleStompClient ''activemq'' 61613)
        \<lparr>socket_ret = 3, host_found = True, connect_ret = 0, send_ret = 73,
         handshake = Data (spec_encode
           \<lparr>command = ''CONNECTED'', headers = [(''version'', ''1.2'')], body = []\<rparr>)\<rparr> =
        Some (True, c', evs) \<and> connected c'"
    by simp blast
  from short(2) absent off
    connect_handshake [of "\<lparr>socket_ret = 3, host_found = True, connect_ret = 0, send_ret = 73,
         handshake = Data (spec_encode
           \<lparr>command = ''ERROR'', headers = [(''message'', ''bad version'')], body = []\<rparr>)\<rparr>"
       Consumer "SimpleStompClient ''activemq'' 61613"]
  have second: "\<exists>c' evs.
      connect Consumer (SimpleStompClient ''activemq'' 61613)
        \<lparr>socket_ret = 3, host_found = True, connect_ret = 0, send_ret = 73,
         handshake = Data (spec_encode
           \<lparr>command = ''ERROR'', headers = [(''message'', ''bad version'')], body = []\<rparr>)\<rparr> =
        Some (False, c', evs) \<and> \<not> connected c'"
    by simp blast
  from first second show ?thesis
    by (rule conjI)
qed

text \<open>
  C6 as stated fails. An ERROR frame whose header holds the text CONNECTED, and a
  response that is no frame at all but holds that text, each make \<open>connect\<close> return
  \<open>true\<close> with the client connected.
\<close>

theorem handshake_counterexample:
  "map_option (\<lambda>r. (fst r, connected (fst (snd r))))
     (connect Consumer (SimpleStompClient ''activemq'' 61613)
        \<lparr>socket_ret = 3, host_found = True, connect_ret = 0, send_ret = 73,
         handshake = Data (spec_encode
           \<lparr>command = ''ERROR'', headers = [(''message'', ''Already CONNECTED'')], body = []\<rparr>)\<rparr>) =
   Some (True, True) \<and>
   map_option (\<lambda>r. (fst r, connected (fst (snd r))))
     (connect Producer (SimpleStompClient ''activemq'' 61613)
        \<lparr>socket_ret = 3, host_found = True, connect_ret = 0, send_ret = 57,
         handshake = Data ''DISCONNECTED''\<rparr>) =
   Some (True, True)"
  by (simp add: connect_def spec_encode_def header_line_def c_str_def NL_def NUL_def Let_def)

section \<open>The retry loop\<close>

lemma connect_schedule:
  "connect v c env = Some (ok, c', evs) \<Longrightarrow> schedule evs = [Socket]"
  by (auto simp: connect_def schedule_def Let_def split: if_splits prod.splits)

lemma schedule_append: "schedule (xs @ ys) = schedule xs @ schedule ys"
  by (simp add: schedule_def)

lemma spaced_sockets: "length (filter (\<lambda>e. e = Socket) (spaced ms n)) = n"
  by (induction ms n rule: spaced.induct) auto

lemma retry_loop_all_fail:
  assumes fails: "\<forall>i c. retry \<le> i \<and> i \<le> max_retries \<longrightarrow>
                    (\<exists>c' evs. connect v c (envs i) = Some (False, c', evs))"
    and small: "max_retries < 2147483647"
    and k: "k = nat (max_retries + 1 - retry)"
  shows "\<exists>c' evs. retry_loop v max_retries retry c envs = Some (False, c', evs) \<and>
           schedule evs = spaced 3000 k"
  using fails k
proof (induction k arbitrary: retry c)
  case 0
  then have "\<not> retry \<le> max_retries"
    by simp
  then show ?case
    by (simp add: retry_loop.simps schedule_def)
next
  case (Suc k)
  from Suc.prems(2) have le: "retry \<le> max_retries" and k: "k = nat (max_retries + 1 - (retry + 1))"
    by simp_all
  from Suc.prems(1) le obtain c1 evs1 where
    attempt: "connect v c (envs retry) = Some (False, c1, evs1)"
    by blast
  from attempt have sched1: "schedule evs1 = [Socket]"
    by (rule connect_schedule)
  from Suc.prems(1) have "\<forall>i c. retry + 1 \<le> i \<and> i \<le> max_retries \<longrightarrow>
                    (\<exists>c' evs. connect v c (envs i) = Some (False, c', evs))"
    by simp
  from Suc.IH [OF this k] obtain c2 evs2 where
    rest: "retry_loop v max_retries (retry + 1) c1 envs = Some (False, c2, evs2)"
    and sched2: "schedule evs2 = spaced 3000 k"
    by blast
  from le small have notmax: "retry \<noteq> 2147483647"
    by simp
  let ?line = "Cout (tag v @ '' Connection attempt '' @ to_string_int retry @ ''/'' @
                      to_string_int max_retries)"
  let ?pause = "if retry < max_retries
                then [Cout (tag v @ '' Retrying in 3 seconds...''), Sleep_ms 3000] else []"
  have result: "retry_loop v max_retries retry c envs =
      Some (False, c2, (?line # evs1) @ ?pause @ evs2)"
    using le notmax attempt rest
    by (subst retry_loop.simps) (simp add: Let_def)
  have "schedule ((?line # evs1) @ ?pause @ evs2) = spaced 3000 (Suc k)"
  proof (cases "retry < max_retries")
    case True
    with k have "0 < k"
      by simp
    then obtain j where "k = Suc j"
      by (cases k) auto
    with True sched1 sched2 show ?thesis
      by (simp add: schedule_append) (simp add: schedule_def)
  next
    case False
    with le k have "k = 0"
      by simp
    with False sched1 sched2 show ?thesis
      by (simp add: schedule_append) (simp add: schedule_def)
  qed
  with result show ?case
    by blast
qed

text \<open>
  C5. When every round of \<open>connect\<close> fails, \<open>main\<close> with \<open>max_retries = N\<close>
  calls \<open>connect\<close> exactly \<open>N\<close> times, sleeps three seconds between one call and
  the next and not after the last, then reports the failure after \<open>N\<close> attempts
  on \<open>std::cerr\<close> and returns 1. \<open>N\<close> is a count below the largest \<open>int\<close>.
\<close>

theorem retry_bound:
  assumes "0 \<le> N" and "N < 2147483647"
    and "\<forall>i c. 1 \<le> i \<and> i \<le> N \<longrightarrow> (\<exists>c' evs. connect v c (envs i) = Some (False, c', evs))"
  shows "\<exists>evs.
           main_connect v N broker_host broker_port envs =
             Some (Inl 1,
               evs @ [Cerr (tag v @ '' Failed to connect to ActiveMQ after '' @
                            to_string_int N @ '' attempts'')]) \<and>
           schedule evs = spaced 3000 (nat N) \<and>
           length (filter (\<lambda>e. e = Socket) evs) = nat N"
proof -
  have k: "nat N = nat (N + 1 - 1)"
    by simp
  from retry_loop_all_fail [OF assms(3) assms(2) k] obtain c' evs where
    loop: "retry_loop v N 1 (SimpleStompClient broker_host broker_port) envs = Some (False, c', evs)"
    and sched: "schedule evs = spaced 3000 (nat N)"
    by blast
  have "filter (\<lambda>e. e = Socket) (schedule evs) = filter (\<lambda>e. e = Socket) evs"
    by (induction evs) (auto simp: schedule_def)
  with sched have "length (filter (\<lambda>e. e = Socket) evs) = nat N"
    by (metis spaced_sockets)
  with loop sched show ?thesis
    by (simp add: main_connect_def)
qed

text \<open>C5 at \<open>N = 3\<close> and a broker that refuses every connection.\<close>

theorem retry_bound_witness:
  "(\<forall>i c. \<exists>c' evs. connect Producer c
       \<lparr>socket_ret = 3, host_found = True, connect_ret = - 1, send_ret = 0,
        handshake = Read_error\<rparr> = Some (False, c', evs)) \<and>
   (\<exists>evs.
      main_connect Producer 3 ''activemq'' 61613
        (\<lambda>i. \<lparr>socket_ret = 3, host_found = True, connect_ret = - 1, send_ret = 0,
              handshake = Read_error\<rparr>) =
        Some (Inl 1, evs @ [Cerr ''[PRODUCER] Failed to connect to ActiveMQ after 3 attempts'']) \<and>
      schedule evs = [Socket, Sleep_ms 3000, Socket, Sleep_ms 3000, Socket] \<and>
      length (filter (\<lambda>e. e = Socket) evs) = 3)"
proof -
  have refused: "\<forall>i c. 1 \<le> i \<and> i \<le> 3 \<longrightarrow> (\<exists>c' evs. connect Producer c
       ((\<lambda>i. \<lparr>socket_ret = 3, host_found = True, connect_ret = - 1, send_ret = 0,
              handshake = Read_error\<rparr>) i) = Some (False, c', evs))"
    by (simp add: connect_def)
  have always: "\<forall>i c. \<exists>c' evs. connect Producer c
       \<lparr>socket_ret = 3, host_found = True, connect_ret = - 1, send_ret = 0,
        handshake = Read_error\<rparr> = Some (False, c', evs)"
    by (simp add: connect_def)
  have three: "nat 3 = 3"
    by simp
  have count: "spaced 3000 3 = [Socket, Sleep_ms 3000, Socket, Sleep_ms 3000, Socket]"
    by (simp add: numeral_3_eq_3)
  have line: "tag Producer @ '' Failed to connect to ActiveMQ after '' @ to_string_int 3 @ '' attempts'' =
      ''[PRODUCER] Failed to connect to ActiveMQ after 3 attempts''"
    by (simp add: tag_def to_string_int_def to_string.simps)
  have "\<exists>evs.
      main_connect Producer 3 ''activemq'' 61613
        (\<lambda>i. \<lparr>socket_ret = 3, host_found = True, connect_ret = - 1, send_ret = 0,
              handshake = Read_error\<rparr>) =
        Some (Inl 1, evs @ [Cerr (tag Producer @ '' Failed to connect to ActiveMQ after '' @
                                  to_string_int 3 @ '' attempts'')]) \<and>
      schedule evs = spaced 3000 (nat 3) \<and>
      length (filter (\<lambda>e. e = Socket) evs) = nat 3"
    by (rule retry_bound [OF _ _ refused]) simp_all
  then have "\<exists>evs.
      main_connect Producer 3 ''activemq'' 61613
        (\<lambda>i. \<lparr>socket_ret = 3, host_found = True, connect_ret = - 1, send_ret = 0,
              handshake = Read_error\<rparr>) =
        Some (Inl 1, evs @ [Cerr ''[PRODUCER] Failed to connect to ActiveMQ after 3 attempts'']) \<and>
      schedule evs = [Socket, Sleep_ms 3000, Socket, Sleep_ms 3000, Socket] \<and>
      length (filter (\<lambda>e. e = Socket) evs) = 3"
    by (simp only: line three count)
  with always show ?thesis
    by (rule conjI)
qed

end
